theory Spec2Isabelle
  imports
    Main
    "HOL-Library.Word"
    "HOL-Library.Multiset"
    "HOL-Library.Finite_Map"
    "HOL-Library.Char_ord"
    "HOL-Library.List_Lexorder"
begin

section \<open>The reputation ledger (ranking.go)\<close>

subsection \<open>Data model\<close>

text \<open>
  Go's \<^verbatim>\<open>int\<close> is a two's-complement machine integer, of 64 bits on a 64-bit
  platform, which is the width fixed here. \<^verbatim>\<open>+=\<close> wraps around silently, \<^verbatim>\<open>>\<close>
  compares the signed values (\<open>sint\<close>). A Go string is a sequence of bytes and is
  modelled as a \<open>string\<close>. The parameter that the source calls \<^verbatim>\<open>id\<close> is written
  \<open>uid\<close>.
\<close>

type_synonym go_int = "64 word"

text \<open>\<^verbatim>\<open>type User struct { ID string `json:"id"`; Rating int `json:"rating"` }\<close>\<close>

record User =
  ID :: string
  Rating :: go_int

text \<open>
  \<^verbatim>\<open>type Ranking struct { mu sync.Mutex; users map[string]*User; admins map[string]bool;
  isModified bool }\<close>

  A Go map is a finite map. Every \<^verbatim>\<open>*User\<close> stored in \<^verbatim>\<open>users\<close> is allocated at
  the place where it is stored (in \<^verbatim>\<open>AddUser\<close>, in \<^verbatim>\<open>UpdateRating\<close>, or by
  the JSON decoder) and no pointer is handed out (\<^verbatim>\<open>GetTop5\<close> copies the structs), so
  no two keys share a record and the map from keys to records describes the heap.
  Every method holds \<^verbatim>\<open>mu\<close> from its first to its last statement, so each method call
  is one atomic step on this state; the mutex itself carries no further state.

  A method of \<^verbatim>\<open>*Ranking\<close> is modelled as a function from the state of the receiver
  (and of the file system, where it does I/O) to its result and the state after the call.
\<close>

record Ranking =
  users :: "(string, User) fmap"
  admins :: "(string, bool) fmap"
  isModified :: bool

subsection \<open>AddUser, UpdateRating, GetRating\<close>

definition AddUser :: "Ranking \<Rightarrow> string \<Rightarrow> Ranking" where
  "AddUser r uid =
     (case fmlookup (users r) uid of
        None \<Rightarrow> r\<lparr>users := fmupd uid \<lparr>ID = uid, Rating = 0\<rparr> (users r), isModified := True\<rparr>
      | Some _ \<Rightarrow> r)"

definition UpdateRating :: "Ranking \<Rightarrow> string \<Rightarrow> go_int \<Rightarrow> Ranking" where
  "UpdateRating r uid points =
     (let r' = (case fmlookup (users r) uid of
                  Some user \<Rightarrow> r\<lparr>users := fmupd uid (user\<lparr>Rating := Rating user + points\<rparr>) (users r)\<rparr>
                | None \<Rightarrow> r\<lparr>users := fmupd uid \<lparr>ID = uid, Rating = points\<rparr> (users r)\<rparr>)
      in r'\<lparr>isModified := True\<rparr>)"

definition GetRating :: "Ranking \<Rightarrow> string \<Rightarrow> go_int \<times> Ranking" where
  "GetRating r uid =
     (case fmlookup (users r) uid of
        Some user \<Rightarrow> (Rating user, r)
      | None \<Rightarrow> (0, r))"

subsection \<open>The file system and the JSON documents\<close>

text \<open>
  \<^verbatim>\<open>os\<close> and \<^verbatim>\<open>encoding/json\<close> are libraries outside the repository; they are
  modelled by their contract on the files this program reads and writes.

  The ledger file is a JSON object with one member per map key, each member an object
  with the fields \<^verbatim>\<open>id\<close> and \<^verbatim>\<open>rating\<close> of the struct tags. A file is
  described by what \<^verbatim>\<open>json.Decoder.Decode\<close> makes of it when the target is a
  \<^verbatim>\<open>map[string]*User\<close>:
  \<^item> \<open>JSONNull\<close>: the text is \<^verbatim>\<open>null\<close>; \<^verbatim>\<open>Decode\<close> sets the map to
    \<^verbatim>\<open>nil\<close> and returns \<^verbatim>\<open>nil\<close>;
  \<^item> \<open>UsersJSON ms\<close>: the text is an object whose members, in the order of the text,
    are the keys and values \<open>ms\<close>; a value is a record (a field missing in the text
    has Go's zero value in it) or, written \<open>None\<close>, the JSON \<^verbatim>\<open>null\<close>, for which
    the decoder stores a \<^verbatim>\<open>nil\<close> pointer; a key may occur twice; \<^verbatim>\<open>Decode\<close>
    returns \<^verbatim>\<open>nil\<close>;
  \<^item> \<open>BadJSON ms\<close>: any other text; \<^verbatim>\<open>Decode\<close> returns an error, after it has
    stored the members \<open>ms\<close> (none for a syntax error, since the decoder checks the
    syntax of the whole value before it stores anything).
\<close>

datatype file_content =
  JSONNull
| UsersJSON "(string \<times> User option) list"
| BadJSON "(string \<times> User option) list"

text \<open>
  The state of the file system: the files by path, the paths on which \<^verbatim>\<open>os.Create\<close>
  fails, the paths on which the write of the encoder fails, and the paths on which
  \<^verbatim>\<open>os.Open\<close> fails with an error other than the one for a file that does not exist
  (a file that may not be read, a path through something that is not a directory).
\<close>

record FS =
  files :: "string \<rightharpoonup> file_content"
  create_fails :: "string set"
  write_fails :: "string set"
  open_fails :: "string set"

text \<open>The values of \<^verbatim>\<open>fmt.Errorf\<close> that the two methods return.\<close>

datatype error =
  FailedToCreateFile | FailedToEncodeUsers | FailedToOpenFile | FailedToDecodeUsers

text \<open>
  The encoder coerces every string to valid UTF-8: it goes through the string as
  \<^verbatim>\<open>utf8.DecodeRuneInString\<close> does and writes U+FFFD, the bytes EF BF BD, for every
  byte that does not start a well-formed encoding. \<open>rune_width s\<close> is the number of
  bytes of the well-formed encoding that \<open>s\<close> starts with, 0 if there is none: one byte
  below 80; C2 to DF with one continuation byte (80 to BF); E0 to EF with two, F0 to F4
  with three, where the second byte is further restricted after E0 (A0 to BF), ED (80 to
  9F), F0 (90 to BF) and F4 (80 to 8F).
\<close>

definition continuation :: "nat \<Rightarrow> bool" where
  "continuation b \<longleftrightarrow> 0x80 \<le> b \<and> b \<le> 0xBF"

definition second_byte :: "nat \<Rightarrow> nat \<Rightarrow> bool" where
  "second_byte b0 b1 \<longleftrightarrow>
     (if b0 = 0xE0 then 0xA0 \<le> b1 \<and> b1 \<le> 0xBF
      else if b0 = 0xED then 0x80 \<le> b1 \<and> b1 \<le> 0x9F
      else if b0 = 0xF0 then 0x90 \<le> b1 \<and> b1 \<le> 0xBF
      else if b0 = 0xF4 then 0x80 \<le> b1 \<and> b1 \<le> 0x8F
      else continuation b1)"

definition rune_width :: "string \<Rightarrow> nat" where
  "rune_width s =
     (case map of_char s of
        [] \<Rightarrow> 0
      | b0 # bs \<Rightarrow>
          if b0 < 0x80 then 1
          else if 0xC2 \<le> b0 \<and> b0 \<le> 0xDF
            then (case bs of b1 # _ \<Rightarrow> if continuation b1 then 2 else 0 | _ \<Rightarrow> 0)
          else if 0xE0 \<le> b0 \<and> b0 \<le> 0xEF
            then (case bs of
                    b1 # b2 # _ \<Rightarrow> if second_byte b0 b1 \<and> continuation b2 then 3 else 0
                  | _ \<Rightarrow> 0)
          else if 0xF0 \<le> b0 \<and> b0 \<le> 0xF4
            then (case bs of
                    b1 # b2 # b3 # _ \<Rightarrow>
                      if second_byte b0 b1 \<and> continuation b2 \<and> continuation b3 then 4 else 0
                  | _ \<Rightarrow> 0)
          else 0)"

text \<open>
  \<open>coerce_from skip s\<close>: \<open>skip\<close> bytes of a well-formed encoding are still to be
  copied. \<open>coerce_utf8 s\<close> is the string that the decoder reads back from what the
  encoder writes for \<open>s\<close> (the escapes that the encoder writes for control characters
  and for \<^verbatim>\<open><\<close>, \<^verbatim>\<open>>\<close>, \<^verbatim>\<open>&\<close>, U+2028 and U+2029 are read back as the
  characters).
\<close>

fun coerce_from :: "nat \<Rightarrow> string \<Rightarrow> string" where
  "coerce_from skip [] = []"
| "coerce_from skip (c # cs) =
     (if skip > 0 then c # coerce_from (skip - 1) cs
      else if rune_width (c # cs) = 0 then [CHR 0xEF, CHR 0xBF, CHR 0xBD] @ coerce_from 0 cs
      else c # coerce_from (rune_width (c # cs) - 1) cs)"

definition coerce_utf8 :: "string \<Rightarrow> string" where
  "coerce_utf8 s = coerce_from 0 s"



text \<open>
  \<^verbatim>\<open>Encoder.Encode(r.users)\<close> writes the members of the map sorted by key (Go compares
  strings byte by byte, which is the lexicographic order of \<open>string\<close> here), each key
  and each \<^verbatim>\<open>id\<close> coerced to valid UTF-8; the rating is written in decimal and read
  back as the same \<^verbatim>\<open>int\<close>. The result is the file as the decoder will read it.
\<close>

definition Encode :: "(string, User) fmap \<Rightarrow> (string \<times> User option) list" where
  "Encode m =
     map (\<lambda>(k, user). (coerce_utf8 k, Some (user\<lparr>ID := coerce_utf8 (ID user)\<rparr>)))
       (sorted_list_of_fmap m)"

text \<open>
  The user map as Go's type \<^verbatim>\<open>map[string]*User\<close> has it after a load: \<open>None\<close> is
  the \<^verbatim>\<open>nil\<close> map, a key bound to \<open>None\<close> holds a \<^verbatim>\<open>nil\<close> pointer. The
  ledgers of type \<open>Ranking\<close> are those with an allocated map and allocated records, as
  \<^verbatim>\<open>NewRanking\<close>, \<^verbatim>\<open>AddUser\<close> and \<^verbatim>\<open>UpdateRating\<close> make them; \<open>intact\<close>
  embeds them.
\<close>

record Loaded =
  loaded_users :: "(string, User option) fmap option"
  loaded_admins :: "(string, bool) fmap"
  loaded_isModified :: bool

definition intact :: "Ranking \<Rightarrow> Loaded" where
  "intact r =
     \<lparr>loaded_users = Some (fmmap Some (users r)), loaded_admins = admins r,
      loaded_isModified = isModified r\<rparr>"

text \<open>
  What a key is bound to: \<open>None\<close> if the key is not in the map (or the map is
  \<^verbatim>\<open>nil\<close>), \<open>Some None\<close> for a \<^verbatim>\<open>nil\<close> pointer, \<open>Some (Some user)\<close> for a
  record.
\<close>

definition loaded_lookup :: "Loaded \<Rightarrow> string \<Rightarrow> User option option" where
  "loaded_lookup l k = (case loaded_users l of None \<Rightarrow> None | Some m \<Rightarrow> fmlookup m k)"

text \<open>
  \<^verbatim>\<open>Decoder.Decode(&r.users)\<close> on an object reuses the map it is given, keeps its
  entries, and stores each member of the object under its key: a freshly allocated record
  each time, or a \<^verbatim>\<open>nil\<close> pointer for \<^verbatim>\<open>null\<close>.
\<close>

definition Decode ::
  "(string \<times> User option) list \<Rightarrow> (string, User option) fmap \<Rightarrow> (string, User option) fmap" where
  "Decode ms m = foldl (\<lambda>m' (k, u). fmupd k u m') m ms"

subsection \<open>SaveToFile, LoadFromFile\<close>

text \<open>
  \<^verbatim>\<open>os.Create\<close> truncates the file; when the write of the encoder fails afterwards, the
  file holds no complete JSON value.
\<close>

definition SaveToFile :: "Ranking \<Rightarrow> string \<Rightarrow> FS \<Rightarrow> error option \<times> Ranking \<times> FS" where
  "SaveToFile r filepath fs =
     (if \<not> isModified r then (None, r, fs)
      else if filepath \<in> create_fails fs then (Some FailedToCreateFile, r, fs)
      else if filepath \<in> write_fails fs
        then (Some FailedToEncodeUsers, r, fs\<lparr>files := (files fs)(filepath \<mapsto> BadJSON [])\<rparr>)
      else (None, r\<lparr>isModified := False\<rparr>,
            fs\<lparr>files := (files fs)(filepath \<mapsto> UsersJSON (Encode (users r)))\<rparr>))"

text \<open>
  \<^verbatim>\<open>LoadFromFile\<close> is called on a ledger of type \<open>Ranking\<close>; what it leaves may have
  a \<^verbatim>\<open>nil\<close> map or \<^verbatim>\<open>nil\<close> records. An error of \<^verbatim>\<open>os.Open\<close> is returned unless
  it is the one for a file that does not exist.
\<close>

definition LoadFromFile :: "Ranking \<Rightarrow> string \<Rightarrow> FS \<Rightarrow> error option \<times> Loaded" where
  "LoadFromFile r filepath fs =
     (if filepath \<in> open_fails fs then (Some FailedToOpenFile, intact r)
      else case files fs filepath of
             None \<Rightarrow> (None, intact r)
           | Some JSONNull \<Rightarrow> (None, (intact r)\<lparr>loaded_users := None\<rparr>)
           | Some (UsersJSON ms) \<Rightarrow>
               (None, (intact r)\<lparr>loaded_users := Some (Decode ms (fmmap Some (users r)))\<rparr>)
           | Some (BadJSON ms) \<Rightarrow>
               (Some FailedToDecodeUsers,
                (intact r)\<lparr>loaded_users := Some (Decode ms (fmmap Some (users r)))\<rparr>))"

text \<open>
  What a ledger file holds for a key, in the words of the specification: the value of the
  last member with that key (a record, or \<open>None\<close> for \<^verbatim>\<open>null\<close>), when the file
  exists and is an object that decodes; nothing otherwise.
\<close>

definition file_record :: "FS \<Rightarrow> string \<Rightarrow> string \<Rightarrow> User option option" where
  "file_record fs filepath k =
     (case files fs filepath of
        Some (UsersJSON ms) \<Rightarrow> map_of (rev ms) k
      | _ \<Rightarrow> None)"

subsection \<open>GetTop5, IsAdmin\<close>

text \<open>
  \<^verbatim>\<open>sort.Slice(x, less)\<close> is not stable; its contract is that the slice afterwards holds
  the same elements and that no element is \<^verbatim>\<open>less\<close> (here \<open>lessf\<close>) than one before it.
\<close>

definition sort_Slice :: "('a \<Rightarrow> 'a \<Rightarrow> bool) \<Rightarrow> 'a list \<Rightarrow> 'a list \<Rightarrow> bool" where
  "sort_Slice lessf xs ys \<longleftrightarrow> mset ys = mset xs \<and> sorted_wrt (\<lambda>a b. \<not> lessf b a) ys"

text \<open>
  \<^verbatim>\<open>for _, user := range r.users\<close> visits every key once, in an order Go leaves open
  (\<open>ks\<close>). With the unstable sort this makes the result a relation:
  \<open>GetTop5 r (out, r')\<close> says that the call may return \<open>out\<close>, leaving \<open>r'\<close>.
\<close>

inductive GetTop5 :: "Ranking \<Rightarrow> User list \<times> Ranking \<Rightarrow> bool" where
  "distinct ks \<Longrightarrow> set ks = fmdom' (users r) \<Longrightarrow>
   us = map (\<lambda>k. the (fmlookup (users r) k)) ks \<Longrightarrow>
   sort_Slice (\<lambda>a b. sint (Rating a) > sint (Rating b)) us ss \<Longrightarrow>
   out = (if length ss > 5 then take 5 ss else ss) \<Longrightarrow>
   GetTop5 r (out, r)"

text \<open>
  The records of the ledger as a multiset, one for each key, and the ledgers in which
  every record is stored under its own \<^verbatim>\<open>ID\<close>, as \<^verbatim>\<open>AddUser\<close> and
  \<^verbatim>\<open>UpdateRating\<close> store them.
\<close>

definition records :: "Ranking \<Rightarrow> User multiset" where
  "records r = image_mset (\<lambda>k. the (fmlookup (users r) k)) (mset_set (fmdom' (users r)))"

definition keyed_by_ID :: "Ranking \<Rightarrow> bool" where
  "keyed_by_ID r \<longleftrightarrow> (\<forall>k u. fmlookup (users r) k = Some u \<longrightarrow> ID u = k)"

definition IsAdmin :: "Ranking \<Rightarrow> string \<Rightarrow> bool \<times> Ranking" where
  "IsAdmin r userID = (fmlookup (admins r) userID \<noteq> None, r)"

subsection \<open>Library functions on strings\<close>

text \<open>
  \<^verbatim>\<open>strings.TrimPrefix\<close>, \<^verbatim>\<open>strings.TrimSuffix\<close>, \<^verbatim>\<open>strings.Fields\<close> and
  \<^verbatim>\<open>strconv.Atoi\<close> belong to Go's library; they are written out from its
  documentation.
\<close>

definition TrimPrefix :: "string \<Rightarrow> string \<Rightarrow> string" where
  "TrimPrefix s p = (if take (length p) s = p then drop (length p) s else s)"

definition TrimSuffix :: "string \<Rightarrow> string \<Rightarrow> string" where
  "TrimSuffix s p =
     (if length p \<le> length s \<and> drop (length s - length p) s = p
      then take (length s - length p) s else s)"

text \<open>
  \<^verbatim>\<open>Fields\<close> splits around runs of white space as \<^verbatim>\<open>unicode.IsSpace\<close> defines
  it. \<open>white_space\<close> lists the UTF-8 encodings of those runes: tab, LF, VT, FF, CR, space,
  U+0085, U+00A0, U+1680, U+2000 to U+200A, U+2028, U+2029, U+202F, U+205F, U+3000.
  The first byte of such an encoding is never a continuation byte, so wherever the bytes
  occur in a string Go's decoder reads them as that rune.
\<close>

definition white_space :: "nat list list" where
  "white_space =
     [[0x09], [0x0A], [0x0B], [0x0C], [0x0D], [0x20], [0xC2, 0x85], [0xC2, 0xA0],
      [0xE1, 0x9A, 0x80]]
     @ map (\<lambda>b. [0xE2, 0x80, b]) [0x80 ..< 0x8B]
     @ [[0xE2, 0x80, 0xA8], [0xE2, 0x80, 0xA9], [0xE2, 0x80, 0xAF], [0xE2, 0x81, 0x9F],
        [0xE3, 0x80, 0x80]]"

text \<open>The number of bytes of the white-space rune that \<open>s\<close> starts with; 0 if there is none.\<close>

definition space_width :: "string \<Rightarrow> nat" where
  "space_width s =
     (case filter (\<lambda>w. take (length w) (map of_char s) = w) white_space of
        [] \<Rightarrow> 0
      | w # _ \<Rightarrow> length w)"

text \<open>
  \<open>fields_from skip cur s\<close>: \<open>skip\<close> bytes of a white-space rune are still to be
  passed over, \<open>cur\<close> is the field read so far.
\<close>

fun fields_from :: "nat \<Rightarrow> string \<Rightarrow> string \<Rightarrow> string list" where
  "fields_from skip cur [] = (if cur = [] then [] else [cur])"
| "fields_from skip cur (c # cs) =
     (if skip > 0 then fields_from (skip - 1) cur cs
      else if space_width (c # cs) > 0
        then (if cur = [] then fields_from (space_width (c # cs) - 1) [] cs
              else cur # fields_from (space_width (c # cs) - 1) [] cs)
      else fields_from 0 (cur @ [c]) cs)"

definition Fields :: "string \<Rightarrow> string list" where
  "Fields s = fields_from 0 [] s"

definition isDigit :: "char \<Rightarrow> bool" where
  "isDigit c \<longleftrightarrow> (48::nat) \<le> of_char c \<and> of_char c \<le> (57::nat)"

definition digits_value :: "string \<Rightarrow> nat" where
  "digits_value ds = foldl (\<lambda>n c. 10 * n + (of_char c - 48)) 0 ds"

text \<open>
  \<^verbatim>\<open>Atoi\<close> accepts an optional sign and one or more decimal digits whose value fits
  \<^verbatim>\<open>int\<close>; anything else is a \<^verbatim>\<open>*NumError\<close> (\<open>None\<close>).
\<close>

definition Atoi :: "string \<Rightarrow> go_int option" where
  "Atoi s =
     (let (neg, ds) =
            (case s of
               [] \<Rightarrow> (False, [])
             | c # cs \<Rightarrow> if c = CHR ''-'' then (True, cs)
                        else if c = CHR ''+'' then (False, cs) else (False, s))
      in if ds = [] \<or> \<not> list_all isDigit ds then None
         else if neg then (if digits_value ds \<le> 2 ^ 63 then Some (- of_nat (digits_value ds)) else None)
         else (if digits_value ds < 2 ^ 63 then Some (of_nat (digits_value ds)) else None))"

subsection \<open>HandleChinaCommand\<close>

text \<open>The fields of \<^verbatim>\<open>discordgo.MessageCreate\<close> that the handler reads.\<close>

record MessageCreate =
  msg_AuthorID :: string
  msg_ChannelID :: string

text \<open>
  The texts that the handler sends (Russian in the source), in the order of the source:
  the caller has no privilege (line 198); how to use the command, \<^verbatim>\<open>!china @id +10\<close>
  (line 205); the number of points is not an integer (line 215); nothing was saved
  (line 226); the credits of the target changed by the points (line 230).
\<close>

datatype reply =
  NoPrivilege
| UsePrivilegeCorrectly
| UseAnInteger
| NothingSaved
| CreditsChanged string go_int

text \<open>
  The result holds the calls of \<^verbatim>\<open>s.ChannelMessageSend\<close> (channel and text), whose
  results the source ignores, and the states of the ledger and of the file system after
  the call.
\<close>

definition HandleChinaCommand ::
  "Ranking \<Rightarrow> FS \<Rightarrow> MessageCreate \<Rightarrow> string \<Rightarrow> (string \<times> reply) list \<times> Ranking \<times> FS" where
  "HandleChinaCommand r fs m command =
     (let userID = TrimPrefix (msg_AuthorID m) ''<@'';
          userID = TrimSuffix userID ''>'';
          userID = TrimPrefix userID ''!'';
          (isAdmin, r) = IsAdmin r userID
      in if \<not> isAdmin then ([(msg_ChannelID m, NoPrivilege)], r, fs)
         else
           let parts = Fields command
           in if length parts < 3 then ([(msg_ChannelID m, UsePrivilegeCorrectly)], r, fs)
              else
                let targetID = TrimPrefix (parts ! 1) ''<@'';
                    targetID = TrimSuffix targetID ''>'';
                    targetID = TrimPrefix targetID ''!''
                in case Atoi (parts ! 2) of
                     None \<Rightarrow> ([(msg_ChannelID m, UseAnInteger)], r, fs)
                   | Some points \<Rightarrow>
                       let r = UpdateRating r targetID points;
                           (err, r, fs) = SaveToFile r ''users.json'' fs
                       in if err \<noteq> None then ([(msg_ChannelID m, NothingSaved)], r, fs)
                          else ([(msg_ChannelID m, CreditsChanged targetID points)], r, fs))"

text \<open>
  The three trimming steps that the handler applies to the id of the author and to the
  second part of the command: the id inside a mention such as \<^verbatim>\<open><@42>\<close> or
  \<^verbatim>\<open><@!42>\<close>; an id without the decoration is left as it is.
\<close>

definition mention_id :: "string \<Rightarrow> string" where
  "mention_id s = TrimPrefix (TrimSuffix (TrimPrefix s ''<@'') ''>'') ''!''"

subsection \<open>trackUser\<close>

text \<open>The fields of \<^verbatim>\<open>discordgo.VoiceState\<close> that the loop reads.\<close>

record VoiceState =
  vs_UserID :: string
  vs_ChannelID :: string

text \<open>
  What one tick of the loop sees of Discord: \<^verbatim>\<open>s.UserGuilds(100, "", "")\<close> fails or
  returns guilds, and for each of them \<^verbatim>\<open>s.State.Guild(guild.ID)\<close> fails or gives the
  voice states of the guild.
\<close>

datatype guild_state = GuildError | Guild "VoiceState list"

datatype user_guilds = UserGuildsError | UserGuilds "guild_state list"

text \<open>The inner loop over \<^verbatim>\<open>guildState.VoiceStates\<close>, up to its \<^verbatim>\<open>break\<close>.\<close>

fun inVoiceStates :: "string \<Rightarrow> string \<Rightarrow> VoiceState list \<Rightarrow> bool" where
  "inVoiceStates userID channelID [] = False"
| "inVoiceStates userID channelID (vs # rest) =
     (if vs_UserID vs = userID \<and> vs_ChannelID vs = channelID then True
      else inVoiceStates userID channelID rest)"

text \<open>
  The loop over \<^verbatim>\<open>guilds\<close>: a guild whose state cannot be read is skipped
  (\<^verbatim>\<open>continue\<close>), the loop ends at the first guild that has the user in the channel.
\<close>

fun inChannel :: "string \<Rightarrow> string \<Rightarrow> guild_state list \<Rightarrow> bool" where
  "inChannel userID channelID [] = False"
| "inChannel userID channelID (GuildError # guilds) = inChannel userID channelID guilds"
| "inChannel userID channelID (Guild voiceStates # guilds) =
     (if inVoiceStates userID channelID voiceStates then True
      else inChannel userID channelID guilds)"

datatype task_status = Running | Returned

text \<open>
  The loop never ends while the user stays in the channel, so it is run on the ticks that
  have fired so far: the list holds what each tick of the 30-second ticker saw. The result
  says whether the goroutine has returned or waits for the next tick.
\<close>

fun trackUser :: "Ranking \<Rightarrow> string \<Rightarrow> string \<Rightarrow> user_guilds list \<Rightarrow> Ranking \<times> task_status" where
  "trackUser r userID channelID [] = (r, Running)"
| "trackUser r userID channelID (UserGuildsError # ticks) = (r, Returned)"
| "trackUser r userID channelID (UserGuilds guilds # ticks) =
     (if inChannel userID channelID guilds
      then trackUser (UpdateRating r userID 1) userID channelID ticks
      else (r, Returned))"

text \<open>
  The words of the specification: the presence query observes the user in the channel
  when it succeeds and some guild whose state can be read has a voice state of that user
  in that channel.
\<close>

definition observed_in_channel :: "string \<Rightarrow> string \<Rightarrow> user_guilds \<Rightarrow> bool" where
  "observed_in_channel userID channelID q \<longleftrightarrow>
     (\<exists>guilds. q = UserGuilds guilds \<and>
        (\<exists>g \<in> set guilds. \<exists>voiceStates. g = Guild voiceStates \<and>
           (\<exists>vs \<in> set voiceStates. vs_UserID vs = userID \<and> vs_ChannelID vs = channelID)))"

subsection \<open>TrackVoiceActivity\<close>

text \<open>The fields of \<^verbatim>\<open>discordgo.VoiceStateUpdate\<close> that the handler reads.\<close>

record VoiceStateUpdate =
  v_UserID :: string
  v_ChannelID :: string

text \<open>
  The bot: the ledger, and the \<^verbatim>\<open>trackUser\<close> goroutines that have been started and
  have not returned, each with its user and channel, in the order of their start.
\<close>

record Bot =
  ranking :: Ranking
  tasks :: "(string \<times> string) list"

text \<open>
  The handler that \<^verbatim>\<open>TrackVoiceActivity\<close> registers; \<open>botID\<close> is
  \<^verbatim>\<open>s.State.User.ID\<close>. \<^verbatim>\<open>go r.trackUser(s, v.UserID, v.ChannelID)\<close> starts a goroutine.
\<close>

definition TrackVoiceActivity :: "string \<Rightarrow> Bot \<Rightarrow> VoiceStateUpdate \<Rightarrow> Bot" where
  "TrackVoiceActivity botID b v =
     (if v_UserID v = botID then b
      else if v_ChannelID v \<noteq> []
        then b\<lparr>ranking := AddUser (ranking b) (v_UserID v),
              tasks := tasks b @ [(v_UserID v, v_ChannelID v)]\<rparr>
      else b)"

text \<open>
  The events of the bot: a voice state update arrives, or the ticker of the \<open>i\<close>-th
  running goroutine fires and its loop body runs on what Discord reports. A goroutine
  leaves the list when \<^verbatim>\<open>trackUser\<close> returns.
\<close>

datatype event = VoiceUpdate VoiceStateUpdate | Tick nat user_guilds

definition step :: "string \<Rightarrow> Bot \<Rightarrow> event \<Rightarrow> Bot" where
  "step botID b e =
     (case e of
        VoiceUpdate v \<Rightarrow> TrackVoiceActivity botID b v
      | Tick i q \<Rightarrow>
          if i < length (tasks b)
          then (case trackUser (ranking b) (fst (tasks b ! i)) (snd (tasks b ! i)) [q] of
                  (r, Running) \<Rightarrow> b\<lparr>ranking := r\<rparr>
                | (r, Returned) \<Rightarrow> b\<lparr>ranking := r, tasks := take i (tasks b) @ drop (Suc i) (tasks b)\<rparr>)
          else b)"

text \<open>The number of running goroutines that monitor a user.\<close>

definition tasks_of :: "string \<Rightarrow> Bot \<Rightarrow> nat" where
  "tasks_of userID b = length (filter (\<lambda>t. fst t = userID) (tasks b))"

section \<open>The relay (main.go)\<close>

subsection \<open>escapeMarkdownV2\<close>

text \<open>
  \<^verbatim>\<open>strings.NewReplacer\<close> takes pairs of an old and a new string. When every old
  string is a single byte, as here, \<^verbatim>\<open>Replace\<close> goes through the bytes of its argument
  and puts the new string of the first pair with that byte in its place.
  Both copies of the function in the repository have the same pairs.
  \<open>CHR 0x5C\<close> is the backslash.
\<close>

definition NewReplacer :: "(char \<times> string) list \<Rightarrow> (char \<rightharpoonup> string)" where
  "NewReplacer oldnew = map_of oldnew"

definition Replace :: "(char \<rightharpoonup> string) \<Rightarrow> string \<Rightarrow> string" where
  "Replace replacer s = concat (map (\<lambda>c. case replacer c of Some new \<Rightarrow> new | None \<Rightarrow> [c]) s)"

definition escapeMarkdownV2 :: "string \<Rightarrow> string" where
  "escapeMarkdownV2 text =
     Replace (NewReplacer
       [(CHR ''_'', [CHR 0x5C, CHR ''_'']), (CHR ''*'', [CHR 0x5C, CHR ''*'']),
        (CHR ''['', [CHR 0x5C, CHR ''['']), (CHR '']'', [CHR 0x5C, CHR '']'']),
        (CHR ''('', [CHR 0x5C, CHR ''('']), (CHR '')'', [CHR 0x5C, CHR '')'']),
        (CHR ''~'', [CHR 0x5C, CHR ''~'']), (CHR ''>'', [CHR 0x5C, CHR ''>'']),
        (CHR ''#'', [CHR 0x5C, CHR ''#'']), (CHR ''+'', [CHR 0x5C, CHR ''+'']),
        (CHR ''-'', [CHR 0x5C, CHR ''-'']), (CHR ''='', [CHR 0x5C, CHR ''='']),
        (CHR ''|'', [CHR 0x5C, CHR ''|'']), (CHR ''{'', [CHR 0x5C, CHR ''{'']),
        (CHR ''}'', [CHR 0x5C, CHR ''}'']), (CHR ''.'', [CHR 0x5C, CHR ''.'']),
        (CHR ''!'', [CHR 0x5C, CHR ''!''])]) text"

text \<open>
  The reserved set, in the words of the specification:
  \<^verbatim>\<open>_ * [ ] ( ) ~ > # + - = | { } . !\<close>
\<close>

definition reserved :: "char set" where
  "reserved = set ''_*[]()~>#+-=|{}.!''"

text \<open>
  How a reader of the escaped text undoes the escaping: a backslash in front of a reserved
  character is dropped, everything else is kept.
\<close>

fun unescape :: "string \<Rightarrow> string" where
  "unescape (b # c # cs) =
     (if b = CHR 0x5C \<and> c \<in> reserved then c # unescape cs else b # unescape (c # cs))"
| "unescape cs = cs"

text \<open>
  The text that the Discord handler sends to Telegram for a message with content:
  \<^verbatim>\<open>fmt.Sprintf("<headphones>:\n*%s*: %s", escapedUsername, escapedContent)\<close>, where the
  headphones emoji U+1F3A7 is the bytes F0 9F 8E A7.
\<close>

definition telegramMsg :: "string \<Rightarrow> string \<Rightarrow> string" where
  "telegramMsg username content =
     (let escapedContent = escapeMarkdownV2 content;
          escapedUsername = escapeMarkdownV2 username
      in [CHR 0xF0, CHR 0x9F, CHR 0x8E, CHR 0xA7, CHR '':'', CHR 0x0A, CHR ''*'']
         @ escapedUsername @ ''*: '' @ escapedContent)"

section \<open>Example states\<close>

text \<open>
  A ledger without users and admins, a file system without files on which nothing fails,
  a ledger without users whose only admin has the id 7, a modified ledger whose only key
  and id is the single byte FF (not valid UTF-8), a ledger whose only record has the id
  \<^verbatim>\<open>unknown\<close> and is stored under the key \<^verbatim>\<open>X\<close>, and the ledger
  \<^verbatim>\<open>{A:10, B:30, C:20, D:5, E:40, F:1}\<close> of the specification.
\<close>

definition empty_ledger :: Ranking where
  "empty_ledger = \<lparr>users = fmempty, admins = fmempty, isModified = False\<rparr>"

definition empty_disk :: FS where
  "empty_disk = \<lparr>files = Map.empty, create_fails = {}, write_fails = {}, open_fails = {}\<rparr>"

definition ledger_with_admin :: Ranking where
  "ledger_with_admin = \<lparr>users = fmempty, admins = fmupd ''7'' True fmempty, isModified = False\<rparr>"


definition ledger_odd_key :: Ranking where
  "ledger_odd_key =
     \<lparr>users = fmupd ''X'' \<lparr>ID = ''unknown'', Rating = 5\<rparr> fmempty,
      admins = fmempty, isModified = False\<rparr>"

definition six_users :: Ranking where
  "six_users =
     \<lparr>users = fmap_of_list
        [(''A'', \<lparr>ID = ''A'', Rating = 10\<rparr>), (''B'', \<lparr>ID = ''B'', Rating = 30\<rparr>),
         (''C'', \<lparr>ID = ''C'', Rating = 20\<rparr>), (''D'', \<lparr>ID = ''D'', Rating = 5\<rparr>),
         (''E'', \<lparr>ID = ''E'', Rating = 40\<rparr>), (''F'', \<lparr>ID = ''F'', Rating = 1\<rparr>)],
      admins = fmempty, isModified = True\<rparr>"

section \<open>Properties\<close>

subsection \<open>Accumulation of rating adjustments\<close>

lemma GetRating_UpdateRating_same:
  "fst (GetRating (UpdateRating r uid d) uid) = fst (GetRating r uid) + d"
  by (simp add: GetRating_def UpdateRating_def Let_def split: option.splits)

lemma GetRating_UpdateRating_other:
  "uid' \<noteq> uid \<Longrightarrow> fst (GetRating (UpdateRating r uid d) uid') = fst (GetRating r uid')"
  by (simp add: GetRating_def UpdateRating_def Let_def split: option.splits)

lemma GetRating_foldl_UpdateRating:
  "fst (GetRating (foldl (\<lambda>s d. UpdateRating s uid d) r ds) uid)
     = fst (GetRating r uid) + sum_list ds"
  by (induction ds arbitrary: r) (simp_all add: GetRating_UpdateRating_same add.assoc)

lemma GetRating_absent: "fmlookup (users r) uid = None \<Longrightarrow> GetRating r uid = (0, r)"
  by (simp add: GetRating_def)

text \<open>
  Calls for other ids may come in between: in any sequence of calls, the rating of an id
  moves by the sum of the deltas of the calls for that id.
\<close>

lemma GetRating_interleaved_UpdateRating:
  "fst (GetRating (foldl (\<lambda>s (k, d). UpdateRating s k d) r calls) uid)
     = fst (GetRating r uid) + sum_list (map snd (filter (\<lambda>c. fst c = uid) calls))"
proof (induction calls arbitrary: r)
  case Nil
  show ?case by simp
next
  case (Cons c calls)
  obtain k d where c: "c = (k, d)" by (cases c)
  show ?case
    by (cases "k = uid")
      (simp_all add: c Cons.IH GetRating_UpdateRating_same GetRating_UpdateRating_other add.assoc)
qed

lemma word_sum_list_of_int:
  "(sum_list ds :: 'a::len word) = word_of_int (sum_list (map sint ds))"
  by (induction ds) simp_all

lemma sint_plus_sum_list:
  "sint ((a::'a::len word) + sum_list ds)
     = signed_take_bit (LENGTH('a) - 1) (sint a + sum_list (map sint ds))"
proof -
  have "a + sum_list ds = word_of_int (sint a + sum_list (map sint ds))"
    by (simp add: word_sum_list_of_int)
  then show ?thesis
    by (simp only: sint_sbintrunc')
qed

text \<open>
  Claim C1. After any finite sequence of \<^verbatim>\<open>UpdateRating\<close> calls on one id, with deltas
  \<open>ds\<close>, \<^verbatim>\<open>GetRating\<close> of that id is the rating before the calls plus the sum of the
  deltas; for an id that was absent before, it is the sum of the deltas. Deltas may be
  negative and nothing clamps the result: the sum is the one of Go's \<^verbatim>\<open>int\<close>
  (64-bit two's complement), so its signed value is the mathematical sum of the signed
  values, wrapped around into the range of \<^verbatim>\<open>int\<close>.
\<close>

theorem UpdateRating_accumulates:
  "fst (GetRating (foldl (\<lambda>s d. UpdateRating s uid d) r ds) uid)
     = fst (GetRating r uid) + sum_list ds
   \<and> (fmlookup (users r) uid = None \<longrightarrow>
        fst (GetRating (foldl (\<lambda>s d. UpdateRating s uid d) r ds) uid) = sum_list ds)
   \<and> sint (fst (GetRating (foldl (\<lambda>s d. UpdateRating s uid d) r ds) uid))
       = signed_take_bit 63 (sint (fst (GetRating r uid)) + sum_list (map sint ds))"
  using sint_plus_sum_list [of "fst (GetRating r uid)" ds]
  by (simp add: GetRating_foldl_UpdateRating GetRating_absent)

theorem UpdateRating_accumulates_witness:
  "fmlookup (users empty_ledger) ''U42'' = None
   \<and> fst (GetRating (foldl (\<lambda>s d. UpdateRating s ''U42'' d) empty_ledger [5, - 15, 3]) ''U42'')
       = - 7"
proof -
  have a: "fmlookup (users empty_ledger) ''U42'' = None"
    by (simp add: empty_ledger_def)
  with UpdateRating_accumulates [where r = empty_ledger and uid = "''U42''" and ds = "[5, - 15, 3]"]
  show ?thesis by (simp add: GetRating_absent)
qed

subsection \<open>The dirty flag\<close>

text \<open>
  Claim C2. A call of \<^verbatim>\<open>AddUser\<close> that inserts and every call of
  \<^verbatim>\<open>UpdateRating\<close> leave \<^verbatim>\<open>isModified\<close> set; a call of \<^verbatim>\<open>SaveToFile\<close> that
  returns \<^verbatim>\<open>nil\<close> leaves it cleared; a call of \<^verbatim>\<open>SaveToFile\<close> that finds it
  cleared returns \<^verbatim>\<open>nil\<close> and leaves the file system (no file created, truncated or
  rewritten) and the ledger as they were.
\<close>

theorem dirty_flag_discipline:
  "(fmlookup (users r1) uid1 = None \<longrightarrow> isModified (AddUser r1 uid1))
   \<and> isModified (UpdateRating r2 uid2 points)
   \<and> (fst (SaveToFile r3 p3 fs3) = None \<longrightarrow> \<not> isModified (fst (snd (SaveToFile r3 p3 fs3))))
   \<and> (\<not> isModified r4 \<longrightarrow> SaveToFile r4 p4 fs4 = (None, r4, fs4))"
  by (simp add: AddUser_def UpdateRating_def SaveToFile_def Let_def split: option.splits)

theorem dirty_flag_discipline_witness:
  "fmlookup (users empty_ledger) ''U1'' = None
   \<and> isModified (AddUser empty_ledger ''U1'')
   \<and> fst (SaveToFile (AddUser empty_ledger ''U1'') ''users.json'' empty_disk) = None
   \<and> \<not> isModified (fst (snd (SaveToFile (AddUser empty_ledger ''U1'') ''users.json'' empty_disk)))
   \<and> \<not> isModified empty_ledger
   \<and> SaveToFile empty_ledger ''users.json'' empty_disk = (None, empty_ledger, empty_disk)"
  using dirty_flag_discipline [where ?r1.0 = empty_ledger and ?uid1.0 = "''U1''"
      and ?r3.0 = "AddUser empty_ledger ''U1''" and ?p3.0 = "''users.json''" and ?fs3.0 = empty_disk
      and ?r4.0 = empty_ledger and ?p4.0 = "''users.json''" and ?fs4.0 = empty_disk]
  by (simp add: empty_ledger_def empty_disk_def AddUser_def SaveToFile_def)

subsection \<open>Saving and loading\<close>



lemma fmlookup_Decode:
  "fmlookup (Decode ms m) k = (case map_of (rev ms) k of Some u \<Rightarrow> Some u | None \<Rightarrow> fmlookup m k)"
  unfolding Decode_def
proof (induction ms arbitrary: m)
  case Nil
  show ?case by simp
next
  case (Cons p ms)
  obtain k' u' where p: "p = (k', u')" by (cases p)
  show ?case
    by (simp add: p Cons.IH map_add_def split: option.splits)
qed

lemma distinct_sorted_list_of_fset: "distinct (sorted_list_of_fset S)"
  by (simp add: sorted_list_of_fset.rep_eq)






lemma fst_GetRating_users:
  "users r' = users r \<Longrightarrow> fst (GetRating r' uid) = fst (GetRating r uid)"
  by (simp add: GetRating_def split: option.splits)






lemma loaded_lookup_intact: "loaded_lookup (intact r) k = map_option Some (fmlookup (users r) k)"
  by (simp add: loaded_lookup_def intact_def)

lemma LoadFromFile_flags:
  "loaded_isModified (snd (LoadFromFile r p fs)) = isModified r"
  "loaded_admins (snd (LoadFromFile r p fs)) = admins r"
  by (simp_all add: LoadFromFile_def intact_def split: option.splits file_content.splits)

lemma LoadFromFile_succeeds_iff:
  "fst (LoadFromFile r p fs) = None \<longleftrightarrow>
     p \<notin> open_fails fs \<and> (\<forall>ms. files fs p \<noteq> Some (BadJSON ms))"
  by (auto simp: LoadFromFile_def split: option.splits file_content.splits)

lemma LoadFromFile_object:
  assumes "LoadFromFile r p fs = (None, l)" and "files fs p \<noteq> Some JSONNull"
  shows "loaded_lookup l k =
     (case file_record fs p k of Some v \<Rightarrow> Some v | None \<Rightarrow> map_option Some (fmlookup (users r) k))"
  using assms
  by (auto simp: LoadFromFile_def file_record_def loaded_lookup_def intact_def fmlookup_Decode
      split: option.splits if_splits file_content.splits)

lemma LoadFromFile_null:
  assumes "LoadFromFile r p fs = (None, l)" and "files fs p = Some JSONNull"
  shows "loaded_users l = None"
  using assms by (auto simp: LoadFromFile_def split: if_splits)

text \<open>
  Claim C10, as amended. \<^verbatim>\<open>LoadFromFile\<close> returns \<^verbatim>\<open>nil\<close> exactly when
  \<^verbatim>\<open>os.Open\<close> does not fail for another reason than a missing file and the file, if
  there is one, decodes. After a successful load of a file that is not \<^verbatim>\<open>null\<close>, a
  key that the file has is bound to what the file has for it (the record, or a
  \<^verbatim>\<open>nil\<close> pointer for \<^verbatim>\<open>null\<close>) and a key that the file does not have is bound
  to the record it had in memory, or is absent as before. After a successful load of a
  file that is \<^verbatim>\<open>null\<close> the user map is \<^verbatim>\<open>nil\<close>. In every case
  \<^verbatim>\<open>isModified\<close> is as before; so when the ledger was clean, \<^verbatim>\<open>SaveToFile\<close> to any
  path on the ledger that the load has left writes nothing (stated for the ledgers of
  type \<open>Ranking\<close>, on which \<open>SaveToFile\<close> is defined).
\<close>

theorem LoadFromFile_merges:
  "(fst (LoadFromFile r p fs) = None \<longleftrightarrow>
      p \<notin> open_fails fs \<and> (\<forall>ms. files fs p \<noteq> Some (BadJSON ms)))
   \<and> (LoadFromFile r p fs = (None, l) \<and> files fs p \<noteq> Some JSONNull \<longrightarrow>
        (\<forall>k v. file_record fs p k = Some v \<longrightarrow> loaded_lookup l k = Some v)
        \<and> (\<forall>k. file_record fs p k = None \<longrightarrow>
              loaded_lookup l k = map_option Some (fmlookup (users r) k)))
   \<and> (LoadFromFile r p fs = (None, l) \<and> files fs p = Some JSONNull \<longrightarrow> loaded_users l = None)
   \<and> loaded_isModified (snd (LoadFromFile r p fs)) = isModified r
   \<and> (LoadFromFile r p fs = (None, intact r') \<and> \<not> isModified r \<longrightarrow>
        SaveToFile r' q fs = (None, r', fs))"
proof (intro conjI impI allI)
  show "(fst (LoadFromFile r p fs) = None) =
      (p \<notin> open_fails fs \<and> (\<forall>ms. files fs p \<noteq> Some (BadJSON ms)))"
    by (rule LoadFromFile_succeeds_iff)
  show "loaded_isModified (snd (LoadFromFile r p fs)) = isModified r"
    by (rule LoadFromFile_flags)
next
  fix k v
  assume "LoadFromFile r p fs = (None, l) \<and> files fs p \<noteq> Some JSONNull"
    and "file_record fs p k = Some v"
  then show "loaded_lookup l k = Some v"
    using LoadFromFile_object [of r p fs l k] by simp
next
  fix k
  assume "LoadFromFile r p fs = (None, l) \<and> files fs p \<noteq> Some JSONNull"
    and "file_record fs p k = None"
  then show "loaded_lookup l k = map_option Some (fmlookup (users r) k)"
    using LoadFromFile_object [of r p fs l k] by simp
next
  assume "LoadFromFile r p fs = (None, l) \<and> files fs p = Some JSONNull"
  then show "loaded_users l = None"
    using LoadFromFile_null by blast
next
  assume a: "LoadFromFile r p fs = (None, intact r') \<and> \<not> isModified r"
  then have "loaded_isModified (intact r') = isModified r"
    using LoadFromFile_flags(1) [of r p fs] by simp
  with a have "\<not> isModified r'"
    by (simp add: intact_def)
  then show "SaveToFile r' q fs = (None, r', fs)"
    by (simp add: SaveToFile_def)
qed

theorem LoadFromFile_merges_witness:
  "fst (LoadFromFile (AddUser empty_ledger ''Z'') ''users.json''
      (empty_disk\<lparr>files := [''users.json'' \<mapsto>
         UsersJSON [(''A'', Some \<lparr>ID = ''A'', Rating = 10\<rparr>), (''N'', None)]]\<rparr>)) = None
   \<and> files (empty_disk\<lparr>files := [''users.json'' \<mapsto>
         UsersJSON [(''A'', Some \<lparr>ID = ''A'', Rating = 10\<rparr>), (''N'', None)]]\<rparr>) ''users.json''
       \<noteq> Some JSONNull
   \<and> file_record (empty_disk\<lparr>files := [''users.json'' \<mapsto>
         UsersJSON [(''A'', Some \<lparr>ID = ''A'', Rating = 10\<rparr>), (''N'', None)]]\<rparr>)
         ''users.json'' ''A'' = Some (Some \<lparr>ID = ''A'', Rating = 10\<rparr>)
   \<and> loaded_lookup (snd (LoadFromFile (AddUser empty_ledger ''Z'') ''users.json''
      (empty_disk\<lparr>files := [''users.json'' \<mapsto>
         UsersJSON [(''A'', Some \<lparr>ID = ''A'', Rating = 10\<rparr>), (''N'', None)]]\<rparr>))) ''A''
       = Some (Some \<lparr>ID = ''A'', Rating = 10\<rparr>)
   \<and> loaded_lookup (snd (LoadFromFile (AddUser empty_ledger ''Z'') ''users.json''
      (empty_disk\<lparr>files := [''users.json'' \<mapsto>
         UsersJSON [(''A'', Some \<lparr>ID = ''A'', Rating = 10\<rparr>), (''N'', None)]]\<rparr>))) ''N''
       = Some None
   \<and> file_record (empty_disk\<lparr>files := [''users.json'' \<mapsto>
         UsersJSON [(''A'', Some \<lparr>ID = ''A'', Rating = 10\<rparr>), (''N'', None)]]\<rparr>)
         ''users.json'' ''Z'' = None
   \<and> loaded_lookup (snd (LoadFromFile (AddUser empty_ledger ''Z'') ''users.json''
      (empty_disk\<lparr>files := [''users.json'' \<mapsto>
         UsersJSON [(''A'', Some \<lparr>ID = ''A'', Rating = 10\<rparr>), (''N'', None)]]\<rparr>))) ''Z''
       = Some (Some \<lparr>ID = ''Z'', Rating = 0\<rparr>)
   \<and> files (empty_disk\<lparr>files := [''users.json'' \<mapsto> JSONNull]\<rparr>) ''users.json'' = Some JSONNull
   \<and> LoadFromFile (AddUser empty_ledger ''Z'') ''users.json''
        (empty_disk\<lparr>files := [''users.json'' \<mapsto> JSONNull]\<rparr>)
       = (None, \<lparr>loaded_users = None, loaded_admins = fmempty, loaded_isModified = True\<rparr>)
   \<and> \<not> isModified empty_ledger
   \<and> LoadFromFile empty_ledger ''users.json'' empty_disk = (None, intact empty_ledger)
   \<and> SaveToFile empty_ledger ''out.json'' empty_disk = (None, empty_ledger, empty_disk)"
proof -
  let ?fs = "empty_disk\<lparr>files := [''users.json'' \<mapsto>
         UsersJSON [(''A'', Some \<lparr>ID = ''A'', Rating = 10\<rparr>), (''N'', None)]]\<rparr>"
  let ?null = "empty_disk\<lparr>files := [''users.json'' \<mapsto> JSONNull]\<rparr>"
  let ?r = "AddUser empty_ledger ''Z''"
  let ?l = "snd (LoadFromFile ?r ''users.json'' ?fs)"
  have ok: "fst (LoadFromFile ?r ''users.json'' ?fs) = None"
    by (simp add: LoadFromFile_def empty_disk_def)
  then have a: "LoadFromFile ?r ''users.json'' ?fs = (None, ?l)"
    by (metis prod.collapse)
  have b: "files ?fs ''users.json'' \<noteq> Some JSONNull"
    by (simp add: empty_disk_def)
  have f: "file_record ?fs ''users.json'' ''A'' = Some (Some \<lparr>ID = ''A'', Rating = 10\<rparr>)"
      "file_record ?fs ''users.json'' ''N'' = Some None"
      "file_record ?fs ''users.json'' ''Z'' = None"
    by (simp_all add: file_record_def empty_disk_def)
  have z: "fmlookup (users ?r) ''Z'' = Some \<lparr>ID = ''Z'', Rating = 0\<rparr>"
    by (simp add: AddUser_def empty_ledger_def)
  have n: "files ?null ''users.json'' = Some JSONNull"
    by (simp add: empty_disk_def)
  have nl: "LoadFromFile ?r ''users.json'' ?null
       = (None, \<lparr>loaded_users = None, loaded_admins = fmempty, loaded_isModified = True\<rparr>)"
    by (simp add: LoadFromFile_def intact_def empty_disk_def AddUser_def empty_ledger_def)
  have c: "\<not> isModified empty_ledger" by (simp add: empty_ledger_def)
  have e: "LoadFromFile empty_ledger ''users.json'' empty_disk = (None, intact empty_ledger)"
    by (simp add: LoadFromFile_def empty_disk_def)
  from LoadFromFile_merges [where r = ?r and p = "''users.json''" and fs = ?fs and l = ?l]
    a b f z
  have m: "loaded_lookup ?l ''A'' = Some (Some \<lparr>ID = ''A'', Rating = 10\<rparr>)"
      "loaded_lookup ?l ''N'' = Some None"
      "loaded_lookup ?l ''Z'' = Some (Some \<lparr>ID = ''Z'', Rating = 0\<rparr>)"
    by simp_all
  from LoadFromFile_merges [where r = empty_ledger and p = "''users.json''" and fs = empty_disk
      and r' = empty_ledger and q = "''out.json''"] c e
  have s: "SaveToFile empty_ledger ''out.json'' empty_disk = (None, empty_ledger, empty_disk)"
    by simp
  from ok b f m n nl c e s show ?thesis
    by (simp only: simp_thms)
qed

text \<open>
  Claim C10 as stated lets every id that the file does not have keep its record. With a
  file that holds \<^verbatim>\<open>null\<close> the load returns \<^verbatim>\<open>nil\<close>, the file has no record for
  Z, the ledger had one, and after the load Z is bound to nothing.
\<close>

theorem LoadFromFile_null_counterexample:
  "fst (LoadFromFile (AddUser empty_ledger ''Z'') ''users.json''
        (empty_disk\<lparr>files := [''users.json'' \<mapsto> JSONNull]\<rparr>)) = None
   \<and> file_record (empty_disk\<lparr>files := [''users.json'' \<mapsto> JSONNull]\<rparr>) ''users.json'' ''Z'' = None
   \<and> fmlookup (users (AddUser empty_ledger ''Z'')) ''Z'' = Some \<lparr>ID = ''Z'', Rating = 0\<rparr>
   \<and> loaded_lookup (snd (LoadFromFile (AddUser empty_ledger ''Z'') ''users.json''
        (empty_disk\<lparr>files := [''users.json'' \<mapsto> JSONNull]\<rparr>))) ''Z'' = None"
  by (simp add: LoadFromFile_def file_record_def loaded_lookup_def intact_def empty_disk_def
      AddUser_def empty_ledger_def)

subsection \<open>The leaderboard\<close>

lemma GetTop5_cases:
  assumes "GetTop5 r (out, r')"
  obtains ss where "r' = r" "mset ss = records r"
    "sorted_wrt (\<lambda>a b. sint (Rating b) \<le> sint (Rating a)) ss"
    "out = take 5 ss"
  using assms
proof (cases rule: GetTop5.cases)
  case (1 ks us ss)
  have ks: "mset_set (fmdom' (users r)) = mset ks"
    using 1 by (metis mset_set_set)
  have "mset us = records r"
    unfolding records_def ks using 1 by simp
  moreover have "sorted_wrt (\<lambda>a b. sint (Rating b) \<le> sint (Rating a)) ss"
    using 1 by (simp add: sort_Slice_def not_less)
  ultimately show ?thesis
    using 1 that [of ss] by (simp add: sort_Slice_def)
qed

lemma GetTop5_total: "\<exists>out. GetTop5 r (out, r)"
proof -
  let ?ks = "sorted_list_of_fset (fmdom (users r))"
  let ?us = "map (\<lambda>k. the (fmlookup (users r) k)) ?ks"
  let ?ss = "rev (sort_key (\<lambda>u. sint (Rating u)) ?us)"
  have "distinct ?ks"
    by (rule distinct_sorted_list_of_fset)
  moreover have "set ?ks = fmdom' (users r)"
    by (simp add: fmdom'_alt_def)
  moreover have "sort_Slice (\<lambda>a b. sint (Rating a) > sint (Rating b)) ?us ?ss"
    unfolding sort_Slice_def
  proof
    show "mset ?ss = mset ?us" by simp
    have "sorted (map (\<lambda>u. sint (Rating u)) (sort_key (\<lambda>u. sint (Rating u)) ?us))"
      by (rule sorted_sort_key)
    then show "sorted_wrt (\<lambda>a b. \<not> sint (Rating a) < sint (Rating b)) ?ss"
      by (simp add: sorted_wrt_rev sorted_wrt_map not_less)
  qed
  ultimately have "GetTop5 r (if length ?ss > 5 then take 5 ?ss else ?ss, r)"
    by (intro GetTop5.intros [where ks = ?ks and us = ?us and ss = ?ss]) simp_all
  then show ?thesis ..
qed



lemma GetTop5_six_users:
  "GetTop5 six_users
     ([\<lparr>ID = ''E'', Rating = 40\<rparr>, \<lparr>ID = ''B'', Rating = 30\<rparr>, \<lparr>ID = ''C'', Rating = 20\<rparr>,
       \<lparr>ID = ''A'', Rating = 10\<rparr>, \<lparr>ID = ''D'', Rating = 5\<rparr>], six_users)"
proof -
  let ?ks = "[''E'', ''B'', ''C'', ''A'', ''D'', ''F'']"
  let ?ss = "[\<lparr>ID = ''E'', Rating = 40\<rparr>, \<lparr>ID = ''B'', Rating = 30\<rparr>, \<lparr>ID = ''C'', Rating = 20\<rparr>,
              \<lparr>ID = ''A'', Rating = 10\<rparr>, \<lparr>ID = ''D'', Rating = 5\<rparr>, \<lparr>ID = ''F'', Rating = (1::go_int)\<rparr>]"
  have "distinct ?ks" by simp
  moreover have "set ?ks = fmdom' (users six_users)"
    by (auto simp: six_users_def)
  moreover have us: "?ss = map (\<lambda>k. the (fmlookup (users six_users) k)) ?ks"
    by (simp add: six_users_def)
  moreover have "sort_Slice (\<lambda>a b. sint (Rating a) > sint (Rating b)) ?ss ?ss"
    by (simp add: sort_Slice_def)
  moreover have "[\<lparr>ID = ''E'', Rating = 40\<rparr>, \<lparr>ID = ''B'', Rating = 30\<rparr>, \<lparr>ID = ''C'', Rating = 20\<rparr>,
       \<lparr>ID = ''A'', Rating = 10\<rparr>, \<lparr>ID = ''D'', Rating = 5\<rparr>] = (if length ?ss > 5 then take 5 ?ss else ?ss)"
    by simp
  ultimately show ?thesis
    by (rule GetTop5.intros)
qed




subsection \<open>Reading the rating of an unknown id\<close>

lemma keyed_by_ID_AddUser: "keyed_by_ID r \<Longrightarrow> keyed_by_ID (AddUser r uid)"
  by (auto simp: keyed_by_ID_def AddUser_def split: option.splits if_splits)

lemma keyed_by_ID_UpdateRating: "keyed_by_ID r \<Longrightarrow> keyed_by_ID (UpdateRating r uid d)"
  by (auto simp: keyed_by_ID_def UpdateRating_def Let_def split: option.splits if_splits)

lemma keyed_by_ID_six_users: "keyed_by_ID six_users"
  by (auto simp: keyed_by_ID_def six_users_def split: if_splits)

lemma GetTop5_listed:
  assumes "GetTop5 r (out, r')" and "u \<in> set out"
  shows "\<exists>k. fmlookup (users r) k = Some u"
proof -
  from assms(1) obtain ss where ss: "mset ss = records r" "out = take 5 ss"
    by (rule GetTop5_cases)
  from assms(2) have "u \<in> set ss"
    unfolding ss(2) by (rule in_set_takeD)
  then have "u \<in># records r"
    using ss(1) by (metis set_mset_mset)
  then obtain k where "k \<in> fmdom' (users r)" "u = the (fmlookup (users r) k)"
    by (auto simp: records_def)
  then show ?thesis
    by (auto simp: fmlookup_dom'_iff)
qed

text \<open>
  Claim C5, as amended. For an id that is not a key of the user map, \<^verbatim>\<open>GetRating\<close>
  returns 0 and the ledger after the call is the ledger before it (no record created,
  \<^verbatim>\<open>isModified\<close> untouched). A following \<^verbatim>\<open>GetTop5\<close> returns a result, and every
  record that it lists is the record of some other key; in a ledger whose records are
  stored under their own \<^verbatim>\<open>ID\<close> none of the listed records has that id.
\<close>

theorem GetRating_unknown:
  assumes "fmlookup (users r) uid = None"
  shows "GetRating r uid = (0, r)
    \<and> (\<exists>out. GetTop5 (snd (GetRating r uid)) (out, snd (GetRating r uid)))
    \<and> (\<forall>out r'. GetTop5 (snd (GetRating r uid)) (out, r') \<longrightarrow>
          (\<forall>u \<in> set out. \<exists>k. k \<noteq> uid \<and> fmlookup (users r) k = Some u))
    \<and> (keyed_by_ID r \<longrightarrow>
          (\<forall>out r'. GetTop5 (snd (GetRating r uid)) (out, r') \<longrightarrow> uid \<notin> ID ` set out))"
proof -
  have g: "GetRating r uid = (0, r)"
    using assms by (rule GetRating_absent)
  have l: "\<exists>k. k \<noteq> uid \<and> fmlookup (users r) k = Some u"
    if "GetTop5 r (out, r')" "u \<in> set out" for out r' u
    using GetTop5_listed [OF that] assms by (metis option.distinct(1))
  have "uid \<notin> ID ` set out" if "keyed_by_ID r" "GetTop5 r (out, r')" for out r'
    using l [OF that(2)] that(1) by (fastforce simp: keyed_by_ID_def)
  with g l GetTop5_total [of r] show ?thesis
    by simp
qed

theorem GetRating_unknown_witness:
  "fmlookup (users six_users) ''unknown'' = None
   \<and> GetRating six_users ''unknown'' = (0, six_users)
   \<and> keyed_by_ID six_users
   \<and> GetTop5 (snd (GetRating six_users ''unknown''))
        ([\<lparr>ID = ''E'', Rating = 40\<rparr>, \<lparr>ID = ''B'', Rating = 30\<rparr>, \<lparr>ID = ''C'', Rating = 20\<rparr>,
          \<lparr>ID = ''A'', Rating = 10\<rparr>, \<lparr>ID = ''D'', Rating = 5\<rparr>], six_users)
   \<and> ''unknown'' \<notin> ID ` set [\<lparr>ID = ''E'', Rating = 40\<rparr>, \<lparr>ID = ''B'', Rating = 30\<rparr>,
          \<lparr>ID = ''C'', Rating = 20\<rparr>, \<lparr>ID = ''A'', Rating = 10\<rparr>, \<lparr>ID = ''D'', Rating = (5::go_int)\<rparr>]"
proof -
  have a: "fmlookup (users six_users) ''unknown'' = None"
    by (simp add: six_users_def)
  from GetRating_unknown [OF a] GetTop5_six_users keyed_by_ID_six_users a show ?thesis
    by simp
qed

lemma GetTop5_ledger_odd_key:
  "GetTop5 ledger_odd_key ([\<lparr>ID = ''unknown'', Rating = 5\<rparr>], ledger_odd_key)"
proof -
  have "distinct [''X'']" by simp
  moreover have "set [''X''] = fmdom' (users ledger_odd_key)"
    by (simp add: ledger_odd_key_def)
  moreover have "[\<lparr>ID = ''unknown'', Rating = (5::go_int)\<rparr>]
      = map (\<lambda>k. the (fmlookup (users ledger_odd_key) k)) [''X'']"
    by (simp add: ledger_odd_key_def)
  moreover have "sort_Slice (\<lambda>a b. sint (Rating a) > sint (Rating b))
      [\<lparr>ID = ''unknown'', Rating = (5::go_int)\<rparr>] [\<lparr>ID = ''unknown'', Rating = 5\<rparr>]"
    by (simp add: sort_Slice_def)
  moreover have "[\<lparr>ID = ''unknown'', Rating = (5::go_int)\<rparr>]
      = (if length [\<lparr>ID = ''unknown'', Rating = (5::go_int)\<rparr>] > 5
         then take 5 [\<lparr>ID = ''unknown'', Rating = 5\<rparr>] else [\<lparr>ID = ''unknown'', Rating = 5\<rparr>])"
    by simp
  ultimately show ?thesis
    by (rule GetTop5.intros)
qed

text \<open>
  Claim C5 as stated covers every ledger. Loading a file whose only member has the key X
  and a record with the id \<^verbatim>\<open>unknown\<close> succeeds and leaves a ledger in which
  \<^verbatim>\<open>unknown\<close> is not a key: \<^verbatim>\<open>GetRating\<close> returns 0 for it and changes nothing,
  and the following \<^verbatim>\<open>GetTop5\<close> lists a record with that id.
\<close>

theorem GetRating_unknown_listed_counterexample:
  "LoadFromFile empty_ledger ''users.json''
      (empty_disk\<lparr>files := [''users.json'' \<mapsto>
         UsersJSON [(''X'', Some \<lparr>ID = ''unknown'', Rating = 5\<rparr>)]]\<rparr>)
     = (None, intact ledger_odd_key)
   \<and> fmlookup (users ledger_odd_key) ''unknown'' = None
   \<and> GetRating ledger_odd_key ''unknown'' = (0, ledger_odd_key)
   \<and> GetTop5 (snd (GetRating ledger_odd_key ''unknown''))
        ([\<lparr>ID = ''unknown'', Rating = 5\<rparr>], ledger_odd_key)
   \<and> ''unknown'' \<in> ID ` set [\<lparr>ID = ''unknown'', Rating = (5::go_int)\<rparr>]"
proof -
  have m: "fmupd k (Some u) fmempty = fmmap Some (fmupd k u fmempty)" for k and u :: User
    by (rule fmap_ext) simp
  have l: "LoadFromFile empty_ledger ''users.json''
      (empty_disk\<lparr>files := [''users.json'' \<mapsto>
         UsersJSON [(''X'', Some \<lparr>ID = ''unknown'', Rating = 5\<rparr>)]]\<rparr>)
     = (None, intact ledger_odd_key)"
    by (simp add: LoadFromFile_def Decode_def intact_def empty_disk_def empty_ledger_def
        ledger_odd_key_def flip: m)
  have a: "fmlookup (users ledger_odd_key) ''unknown'' = None"
    by (simp add: ledger_odd_key_def)
  then have g: "GetRating ledger_odd_key ''unknown'' = (0, ledger_odd_key)"
    by (rule GetRating_absent)
  from l a g GetTop5_ledger_odd_key show ?thesis
    by simp
qed

subsection \<open>The voice supervisor\<close>

lemma inVoiceStates_iff:
  "inVoiceStates userID channelID voiceStates \<longleftrightarrow>
     (\<exists>vs \<in> set voiceStates. vs_UserID vs = userID \<and> vs_ChannelID vs = channelID)"
  by (induction voiceStates) auto

lemma inChannel_iff:
  "inChannel userID channelID guilds \<longleftrightarrow>
     (\<exists>g \<in> set guilds. \<exists>voiceStates. g = Guild voiceStates
        \<and> inVoiceStates userID channelID voiceStates)"
  by (induction userID channelID guilds rule: inChannel.induct) auto

lemma observed_in_channel_UserGuilds:
  "observed_in_channel userID channelID (UserGuilds guilds) = inChannel userID channelID guilds"
  by (simp add: observed_in_channel_def inChannel_iff inVoiceStates_iff)

lemma observed_in_channel_UserGuildsError:
  "\<not> observed_in_channel userID channelID UserGuildsError"
  by (simp add: observed_in_channel_def)

lemma trackUser_observed:
  "observed_in_channel u c q \<Longrightarrow>
     trackUser r u c (q # qs) = trackUser (UpdateRating r u 1) u c qs"
  by (cases q) (simp_all add: observed_in_channel_UserGuilds observed_in_channel_UserGuildsError)

lemma trackUser_not_observed:
  "\<not> observed_in_channel u c q \<Longrightarrow> trackUser r u c (q # qs) = (r, Returned)"
  by (cases q) (simp_all add: observed_in_channel_UserGuilds)

text \<open>
  Claim C7. At a tick at which the presence query observes the user in the channel the
  task was started for, the rating of the user goes up by exactly 1 and the loop goes on
  with the next tick; at a tick at which the user is not observed there, or
  \<^verbatim>\<open>UserGuilds\<close> fails, \<^verbatim>\<open>trackUser\<close> returns with the ledger as it is, whatever
  later ticks would have seen. So a user at rating 0 who is observed at three ticks in a
  row is at rating 3, and one who is observed at the first tick and not at the second
  ends at rating 1 with the task returned.
\<close>

theorem trackUser_awards_per_tick:
  "(observed_in_channel u c q \<longrightarrow>
      trackUser r u c (q # qs) = trackUser (UpdateRating r u 1) u c qs
      \<and> fst (GetRating (UpdateRating r u 1) u) = fst (GetRating r u) + 1)
   \<and> (\<not> observed_in_channel u' c' q' \<longrightarrow> trackUser r' u' c' (q' # qs') = (r', Returned))
   \<and> (fst (GetRating r3 u3) = 0 \<and> observed_in_channel u3 c3 q1 \<and> observed_in_channel u3 c3 q2
        \<and> observed_in_channel u3 c3 q3 \<longrightarrow>
        fst (GetRating (fst (trackUser r3 u3 c3 [q1, q2, q3])) u3) = 3
        \<and> snd (trackUser r3 u3 c3 [q1, q2, q3]) = Running)
   \<and> (fst (GetRating r4 u4) = 0 \<and> observed_in_channel u4 c4 p1 \<and> \<not> observed_in_channel u4 c4 p2 \<longrightarrow>
        fst (GetRating (fst (trackUser r4 u4 c4 (p1 # p2 # ps))) u4) = 1
        \<and> snd (trackUser r4 u4 c4 (p1 # p2 # ps)) = Returned)"
  by (simp add: trackUser_observed trackUser_not_observed GetRating_UpdateRating_same)

theorem trackUser_awards_per_tick_witness:
  "observed_in_channel ''U1'' ''C1'' (UserGuilds [GuildError, Guild [\<lparr>vs_UserID = ''U1'', vs_ChannelID = ''C1''\<rparr>]])
   \<and> \<not> observed_in_channel ''U1'' ''C1'' (UserGuilds [Guild [\<lparr>vs_UserID = ''U1'', vs_ChannelID = ''C2''\<rparr>]])
   \<and> fst (GetRating (AddUser empty_ledger ''U1'') ''U1'') = 0
   \<and> fst (GetRating (fst (trackUser (AddUser empty_ledger ''U1'') ''U1'' ''C1''
        [UserGuilds [GuildError, Guild [\<lparr>vs_UserID = ''U1'', vs_ChannelID = ''C1''\<rparr>]],
         UserGuilds [GuildError, Guild [\<lparr>vs_UserID = ''U1'', vs_ChannelID = ''C1''\<rparr>]],
         UserGuilds [GuildError, Guild [\<lparr>vs_UserID = ''U1'', vs_ChannelID = ''C1''\<rparr>]]])) ''U1'') = 3
   \<and> fst (GetRating (fst (trackUser (AddUser empty_ledger ''U1'') ''U1'' ''C1''
        [UserGuilds [GuildError, Guild [\<lparr>vs_UserID = ''U1'', vs_ChannelID = ''C1''\<rparr>]],
         UserGuilds [Guild [\<lparr>vs_UserID = ''U1'', vs_ChannelID = ''C2''\<rparr>]],
         UserGuilds [GuildError, Guild [\<lparr>vs_UserID = ''U1'', vs_ChannelID = ''C1''\<rparr>]],
         UserGuilds [GuildError, Guild [\<lparr>vs_UserID = ''U1'', vs_ChannelID = ''C1''\<rparr>]]])) ''U1'') = 1
   \<and> snd (trackUser (AddUser empty_ledger ''U1'') ''U1'' ''C1''
        [UserGuilds [GuildError, Guild [\<lparr>vs_UserID = ''U1'', vs_ChannelID = ''C1''\<rparr>]],
         UserGuilds [Guild [\<lparr>vs_UserID = ''U1'', vs_ChannelID = ''C2''\<rparr>]],
         UserGuilds [GuildError, Guild [\<lparr>vs_UserID = ''U1'', vs_ChannelID = ''C1''\<rparr>]],
         UserGuilds [GuildError, Guild [\<lparr>vs_UserID = ''U1'', vs_ChannelID = ''C1''\<rparr>]]]) = Returned"
proof -
  let ?in = "UserGuilds [GuildError, Guild [\<lparr>vs_UserID = ''U1'', vs_ChannelID = ''C1''\<rparr>]]"
  let ?out = "UserGuilds [Guild [\<lparr>vs_UserID = ''U1'', vs_ChannelID = ''C2''\<rparr>]]"
  let ?r = "AddUser empty_ledger ''U1''"
  have a: "observed_in_channel ''U1'' ''C1'' ?in"
    by (simp add: observed_in_channel_def)
  have b: "\<not> observed_in_channel ''U1'' ''C1'' ?out"
    by (simp add: observed_in_channel_def)
  have z: "fst (GetRating ?r ''U1'') = 0"
    by (simp add: GetRating_def AddUser_def empty_ledger_def)
  from trackUser_awards_per_tick [where ?r3.0 = ?r and ?u3.0 = "''U1''" and ?c3.0 = "''C1''"
      and ?q1.0 = ?in and ?q2.0 = ?in and ?q3.0 = ?in
      and ?r4.0 = ?r and ?u4.0 = "''U1''" and ?c4.0 = "''C1''" and ?p1.0 = ?in and ?p2.0 = ?out
      and ps = "[?in, ?in]"] a b z
  show ?thesis by blast
qed

subsection \<open>Escaping for MarkdownV2\<close>

lemma NewReplacer_reserved:
  "NewReplacer
       [(CHR ''_'', [CHR 0x5C, CHR ''_'']), (CHR ''*'', [CHR 0x5C, CHR ''*'']),
        (CHR ''['', [CHR 0x5C, CHR ''['']), (CHR '']'', [CHR 0x5C, CHR '']'']),
        (CHR ''('', [CHR 0x5C, CHR ''('']), (CHR '')'', [CHR 0x5C, CHR '')'']),
        (CHR ''~'', [CHR 0x5C, CHR ''~'']), (CHR ''>'', [CHR 0x5C, CHR ''>'']),
        (CHR ''#'', [CHR 0x5C, CHR ''#'']), (CHR ''+'', [CHR 0x5C, CHR ''+'']),
        (CHR ''-'', [CHR 0x5C, CHR ''-'']), (CHR ''='', [CHR 0x5C, CHR ''='']),
        (CHR ''|'', [CHR 0x5C, CHR ''|'']), (CHR ''{'', [CHR 0x5C, CHR ''{'']),
        (CHR ''}'', [CHR 0x5C, CHR ''}'']), (CHR ''.'', [CHR 0x5C, CHR ''.'']),
        (CHR ''!'', [CHR 0x5C, CHR ''!''])] c
     = (if c \<in> reserved then Some [CHR 0x5C, c] else None)"
  by (simp add: NewReplacer_def reserved_def)

lemma escapeMarkdownV2_concat:
  "escapeMarkdownV2 s = concat (map (\<lambda>c. if c \<in> reserved then [CHR 0x5C, c] else [c]) s)"
proof -
  have "(\<lambda>c. case (if c \<in> reserved then Some [CHR 0x5C, c] else None) of
            Some new \<Rightarrow> new | None \<Rightarrow> [c])
      = (\<lambda>c. if c \<in> reserved then [CHR 0x5C, c] else [c])"
    by auto
  then show ?thesis
    unfolding escapeMarkdownV2_def Replace_def NewReplacer_reserved by simp
qed

lemma backslash_not_reserved: "CHR 0x5C \<notin> reserved"
  by (simp add: reserved_def)

lemma escaped_positions:
  "i < length (concat (map (\<lambda>c. if c \<in> reserved then [CHR 0x5C, c] else [c]) s)) \<Longrightarrow>
   concat (map (\<lambda>c. if c \<in> reserved then [CHR 0x5C, c] else [c]) s) ! i \<in> reserved \<Longrightarrow>
   0 < i \<and> concat (map (\<lambda>c. if c \<in> reserved then [CHR 0x5C, c] else [c]) s) ! (i - 1) = CHR 0x5C"
proof (induction s arbitrary: i)
  case Nil
  then show ?case by simp
next
  case (Cons c s)
  let ?E = "concat (map (\<lambda>c. if c \<in> reserved then [CHR 0x5C, c] else [c]) s)"
  show ?case
  proof (cases "c \<in> reserved")
    case True
    show ?thesis
    proof (cases i)
      case 0
      with True Cons.prems backslash_not_reserved show ?thesis by simp
    next
      case (Suc j)
      show ?thesis
      proof (cases j)
        case 0
        with Suc True show ?thesis by simp
      next
        case (Suc k)
        with \<open>i = Suc j\<close> True Cons.prems have "k < length ?E" "?E ! k \<in> reserved"
          by simp_all
        then have "0 < k \<and> ?E ! (k - 1) = CHR 0x5C"
          by (rule Cons.IH)
        with Suc \<open>i = Suc j\<close> True show ?thesis
          by (cases k) simp_all
      qed
    qed
  next
    case False
    show ?thesis
    proof (cases i)
      case 0
      with False Cons.prems show ?thesis by simp
    next
      case (Suc j)
      with False Cons.prems have "j < length ?E" "?E ! j \<in> reserved"
        by simp_all
      then have "0 < j \<and> ?E ! (j - 1) = CHR 0x5C"
        by (rule Cons.IH)
      with Suc False show ?thesis
        by (cases j) simp_all
    qed
  qed
qed

lemma escaped_length:
  "length (concat (map (\<lambda>c. if c \<in> reserved then [CHR 0x5C, c] else [c]) s))
     = length s + length (filter (\<lambda>c. c \<in> reserved) s)"
  by (induction s) simp_all

lemma escaped_head:
  "concat (map (\<lambda>c. if c \<in> reserved then [CHR 0x5C, c] else [c]) s) = d # ds \<Longrightarrow> d \<notin> reserved"
  using backslash_not_reserved by (cases s) (auto split: if_splits)

lemma unescape_escaped:
  "unescape (concat (map (\<lambda>c. if c \<in> reserved then [CHR 0x5C, c] else [c]) s)) = s"
proof (induction s)
  case Nil
  show ?case by simp
next
  case (Cons c s)
  let ?E = "concat (map (\<lambda>c. if c \<in> reserved then [CHR 0x5C, c] else [c]) s)"
  show ?case
  proof (cases "c \<in> reserved")
    case True
    with Cons.IH show ?thesis by simp
  next
    case False
    show ?thesis
    proof (cases ?E)
      case Nil
      with False Cons.IH show ?thesis by simp
    next
      case (Cons d ds)
      then have "d \<notin> reserved" by (rule escaped_head)
      with False Cons Cons.IH show ?thesis by simp
    qed
  qed
qed

text \<open>
  Claim C8. \<^verbatim>\<open>escapeMarkdownV2\<close> replaces every character of the reserved set by a
  backslash and that character and passes every other character on as it is. Hence in
  the output every reserved character stands right after a backslash, the output is
  longer than the input by one backslash for each reserved character of the input, and
  dropping the backslashes in front of reserved characters gives the input back. The text
  sent to Telegram applies the function to the user name and to the content, each on its
  own.
\<close>

theorem escapeMarkdownV2_escapes_reserved:
  "escapeMarkdownV2 s = concat (map (\<lambda>c. if c \<in> reserved then [CHR 0x5C, c] else [c]) s)
   \<and> (\<forall>i < length (escapeMarkdownV2 s). escapeMarkdownV2 s ! i \<in> reserved \<longrightarrow>
          0 < i \<and> escapeMarkdownV2 s ! (i - 1) = CHR 0x5C)
   \<and> length (escapeMarkdownV2 s) = length s + length (filter (\<lambda>c. c \<in> reserved) s)
   \<and> unescape (escapeMarkdownV2 s) = s
   \<and> telegramMsg username content =
        [CHR 0xF0, CHR 0x9F, CHR 0x8E, CHR 0xA7, CHR '':'', CHR 0x0A, CHR ''*'']
        @ escapeMarkdownV2 username @ ''*: '' @ escapeMarkdownV2 content"
  unfolding escapeMarkdownV2_concat
  using escaped_positions [of _ s]
  by (simp add: escaped_length unescape_escaped telegramMsg_def escapeMarkdownV2_concat)

theorem escapeMarkdownV2_escapes_reserved_witness:
  "escapeMarkdownV2 ''a_b.'' = [CHR ''a'', CHR 0x5C, CHR ''_'', CHR ''b'', CHR 0x5C, CHR ''.'']
   \<and> (2::nat) < length (escapeMarkdownV2 ''a_b.'')
   \<and> escapeMarkdownV2 ''a_b.'' ! 2 \<in> reserved
   \<and> escapeMarkdownV2 ''a_b.'' ! (2 - 1) = CHR 0x5C"
proof -
  have e: "escapeMarkdownV2 ''a_b.'' = [CHR ''a'', CHR 0x5C, CHR ''_'', CHR ''b'', CHR 0x5C, CHR ''.'']"
    by (simp add: escapeMarkdownV2_def Replace_def NewReplacer_def)
  have l: "(2::nat) < length (escapeMarkdownV2 ''a_b.'')"
    by (simp add: e)
  have r: "escapeMarkdownV2 ''a_b.'' ! 2 \<in> reserved"
    by (simp add: e reserved_def)
  from escapeMarkdownV2_escapes_reserved [of "''a_b.''"] l r
  have "escapeMarkdownV2 ''a_b.'' ! (2 - 1) = CHR 0x5C"
    by blast
  with e l r show ?thesis by blast
qed

subsection \<open>The admin adjustment command\<close>

lemma Fields_adjust: "Fields ''!china <@42> -15'' = [''!china'', ''<@42>'', ''-15'']"
  by code_simp

lemma Fields_missing_points: "Fields ''!china <@42>'' = [''!china'', ''<@42>'']"
  by code_simp

lemma Fields_points_word: "Fields ''!china <@42> ten'' = [''!china'', ''<@42>'', ''ten'']"
  by code_simp

lemma Atoi_minus_15: "Atoi ''-15'' = Some (- 15)"
  by (simp add: Atoi_def isDigit_def digits_value_def)

lemma Atoi_ten: "Atoi ''ten'' = None"
  by (simp add: Atoi_def isDigit_def digits_value_def)

lemma mention_id_examples:
  "mention_id ''<@42>'' = ''42''" "mention_id ''7'' = ''7''" "mention_id ''9'' = ''9''"
  by (simp_all add: mention_id_def TrimPrefix_def TrimSuffix_def)

lemma IsAdmin_ledger_with_admin:
  "fst (IsAdmin ledger_with_admin ''7'')" "\<not> fst (IsAdmin ledger_with_admin ''9'')"
  by (simp_all add: IsAdmin_def ledger_with_admin_def)

lemma HandleChinaCommand_unfold:
  "HandleChinaCommand r fs m command =
     (if \<not> fst (IsAdmin r (mention_id (msg_AuthorID m))) then ([(msg_ChannelID m, NoPrivilege)], r, fs)
      else if length (Fields command) < 3 then ([(msg_ChannelID m, UsePrivilegeCorrectly)], r, fs)
      else case Atoi (Fields command ! 2) of
             None \<Rightarrow> ([(msg_ChannelID m, UseAnInteger)], r, fs)
           | Some points \<Rightarrow>
               (case SaveToFile (UpdateRating r (mention_id (Fields command ! 1)) points) ''users.json'' fs of
                  (err, r', fs') \<Rightarrow>
                    ([(msg_ChannelID m,
                       if err = None then CreditsChanged (mention_id (Fields command ! 1)) points
                       else NothingSaved)], r', fs')))"
  by (simp add: HandleChinaCommand_def IsAdmin_def mention_id_def Let_def split: option.splits prod.splits)

lemma HandleChinaCommand_applied:
  assumes "fst (IsAdmin r (mention_id (msg_AuthorID m)))"
    and "3 \<le> length (Fields c)"
    and "Atoi (Fields c ! 2) = Some d"
    and "SaveToFile (UpdateRating r (mention_id (Fields c ! 1)) d) ''users.json'' fs = (err, r', fs')"
  shows "HandleChinaCommand r fs m c =
        ([(msg_ChannelID m,
           if err = None then CreditsChanged (mention_id (Fields c ! 1)) d else NothingSaved)], r', fs')"
    and "fst (GetRating r' (mention_id (Fields c ! 1))) = fst (GetRating r (mention_id (Fields c ! 1))) + d"
    and "err = None \<Longrightarrow> files fs' ''users.json'' = Some (UsersJSON (Encode (users r')))"
proof -
  let ?t = "mention_id (Fields c ! 1)"
  show "HandleChinaCommand r fs m c =
        ([(msg_ChannelID m, if err = None then CreditsChanged ?t d else NothingSaved)], r', fs')"
    using assms by (simp add: HandleChinaCommand_unfold)
  have "users r' = users (UpdateRating r ?t d)"
    using assms(4) by (auto simp: SaveToFile_def split: if_splits)
  then have "fst (GetRating r' ?t) = fst (GetRating (UpdateRating r ?t d) ?t)"
    by (rule fst_GetRating_users)
  then show "fst (GetRating r' ?t) = fst (GetRating r ?t) + d"
    by (simp add: GetRating_UpdateRating_same)
  show "files fs' ''users.json'' = Some (UsersJSON (Encode (users r')))" if "err = None"
    using assms(4) that
    by (auto simp: SaveToFile_def UpdateRating_def Let_def split: if_splits option.splits)
qed

text \<open>
  Claim C6, as amended. The caller is the id of the author with the mention decoration
  trimmed. If the caller is not an admin, the only reply is the one about missing
  privilege, and ledger and files stay as they are. If the caller is an admin and the
  command has fewer than three fields, the reply is the usage text; if it has three and
  \<^verbatim>\<open>Atoi\<close> rejects the third, the reply asks for an integer; in both cases ledger and
  files stay as they are. Otherwise \<^verbatim>\<open>UpdateRating\<close> is applied to the trimmed second
  field with the parsed points and \<^verbatim>\<open>SaveToFile("users.json")\<close> follows; the rating of
  the target has changed by the points; the reply is the confirmation when the save
  returned \<^verbatim>\<open>nil\<close> (then the file holds the ledger) and the nothing-was-saved text
  when it returned an error.
\<close>

theorem HandleChinaCommand_outcomes:
  "(\<not> fst (IsAdmin r1 (mention_id (msg_AuthorID m1))) \<longrightarrow>
      HandleChinaCommand r1 fs1 m1 c1 = ([(msg_ChannelID m1, NoPrivilege)], r1, fs1))
   \<and> (fst (IsAdmin r2 (mention_id (msg_AuthorID m2))) \<and> length (Fields c2) < 3 \<longrightarrow>
      HandleChinaCommand r2 fs2 m2 c2 = ([(msg_ChannelID m2, UsePrivilegeCorrectly)], r2, fs2))
   \<and> (fst (IsAdmin r3 (mention_id (msg_AuthorID m3))) \<and> 3 \<le> length (Fields c3)
        \<and> Atoi (Fields c3 ! 2) = None \<longrightarrow>
      HandleChinaCommand r3 fs3 m3 c3 = ([(msg_ChannelID m3, UseAnInteger)], r3, fs3))
   \<and> (fst (IsAdmin r4 (mention_id (msg_AuthorID m4))) \<and> 3 \<le> length (Fields c4)
        \<and> Atoi (Fields c4 ! 2) = Some d
        \<and> SaveToFile (UpdateRating r4 (mention_id (Fields c4 ! 1)) d) ''users.json'' fs4
            = (err, r', fs') \<longrightarrow>
      HandleChinaCommand r4 fs4 m4 c4 =
        ([(msg_ChannelID m4,
           if err = None then CreditsChanged (mention_id (Fields c4 ! 1)) d else NothingSaved)],
         r', fs')
      \<and> fst (GetRating r' (mention_id (Fields c4 ! 1)))
          = fst (GetRating r4 (mention_id (Fields c4 ! 1))) + d
      \<and> (err = None \<longrightarrow> files fs' ''users.json'' = Some (UsersJSON (Encode (users r')))))"
  using HandleChinaCommand_applied [of r4 m4 c4 d fs4 err r' fs']
  by (simp add: HandleChinaCommand_unfold)

theorem HandleChinaCommand_outcomes_witness:
  "\<not> fst (IsAdmin ledger_with_admin (mention_id ''9''))
   \<and> HandleChinaCommand ledger_with_admin empty_disk
         \<lparr>msg_AuthorID = ''9'', msg_ChannelID = ''chan''\<rparr> ''!china <@42> -15''
       = ([(''chan'', NoPrivilege)], ledger_with_admin, empty_disk)
   \<and> fst (IsAdmin ledger_with_admin (mention_id ''7''))
   \<and> length (Fields ''!china <@42>'') < 3
   \<and> HandleChinaCommand ledger_with_admin empty_disk
         \<lparr>msg_AuthorID = ''7'', msg_ChannelID = ''chan''\<rparr> ''!china <@42>''
       = ([(''chan'', UsePrivilegeCorrectly)], ledger_with_admin, empty_disk)
   \<and> 3 \<le> length (Fields ''!china <@42> ten'')
   \<and> Atoi (Fields ''!china <@42> ten'' ! 2) = None
   \<and> HandleChinaCommand ledger_with_admin empty_disk
         \<lparr>msg_AuthorID = ''7'', msg_ChannelID = ''chan''\<rparr> ''!china <@42> ten''
       = ([(''chan'', UseAnInteger)], ledger_with_admin, empty_disk)
   \<and> 3 \<le> length (Fields ''!china <@42> -15'')
   \<and> Atoi (Fields ''!china <@42> -15'' ! 2) = Some (- 15)
   \<and> SaveToFile (UpdateRating ledger_with_admin (mention_id (Fields ''!china <@42> -15'' ! 1)) (- 15))
         ''users.json'' empty_disk
       = (None, (UpdateRating ledger_with_admin ''42'' (- 15))\<lparr>isModified := False\<rparr>,
          empty_disk\<lparr>files := [''users.json'' \<mapsto>
            UsersJSON (Encode (users (UpdateRating ledger_with_admin ''42'' (- 15))))]\<rparr>)
   \<and> HandleChinaCommand ledger_with_admin empty_disk
         \<lparr>msg_AuthorID = ''7'', msg_ChannelID = ''chan''\<rparr> ''!china <@42> -15''
       = ([(''chan'', CreditsChanged ''42'' (- 15))],
          (UpdateRating ledger_with_admin ''42'' (- 15))\<lparr>isModified := False\<rparr>,
          empty_disk\<lparr>files := [''users.json'' \<mapsto>
            UsersJSON (Encode (users (UpdateRating ledger_with_admin ''42'' (- 15))))]\<rparr>)
   \<and> fst (GetRating ((UpdateRating ledger_with_admin ''42'' (- 15))\<lparr>isModified := False\<rparr>) ''42'') = - 15"
proof -
  let ?m7 = "\<lparr>msg_AuthorID = ''7'', msg_ChannelID = ''chan''\<rparr>"
  let ?m9 = "\<lparr>msg_AuthorID = ''9'', msg_ChannelID = ''chan''\<rparr>"
  let ?r' = "(UpdateRating ledger_with_admin ''42'' (- 15))\<lparr>isModified := False\<rparr>"
  let ?fs' = "empty_disk\<lparr>files := [''users.json'' \<mapsto>
            UsersJSON (Encode (users (UpdateRating ledger_with_admin ''42'' (- 15))))]\<rparr>"
  have n: "\<not> fst (IsAdmin ledger_with_admin (mention_id (msg_AuthorID ?m9)))"
    by (simp add: mention_id_examples IsAdmin_ledger_with_admin)
  have a: "fst (IsAdmin ledger_with_admin (mention_id (msg_AuthorID ?m7)))"
    by (simp add: mention_id_examples IsAdmin_ledger_with_admin)
  have l2: "length (Fields ''!china <@42>'') < 3"
    by (simp add: Fields_missing_points)
  have l3: "3 \<le> length (Fields ''!china <@42> ten'')" "Atoi (Fields ''!china <@42> ten'' ! 2) = None"
    by (simp_all add: Fields_points_word Atoi_ten)
  have l4: "3 \<le> length (Fields ''!china <@42> -15'')"
      "Atoi (Fields ''!china <@42> -15'' ! 2) = Some (- 15)"
    by (simp_all add: Fields_adjust Atoi_minus_15)
  have s: "SaveToFile (UpdateRating ledger_with_admin (mention_id (Fields ''!china <@42> -15'' ! 1)) (- 15))
         ''users.json'' empty_disk = (None, ?r', ?fs')"
    by (simp add: Fields_adjust mention_id_examples SaveToFile_def UpdateRating_def
        ledger_with_admin_def empty_disk_def)
  have z: "fst (GetRating ledger_with_admin ''42'') = 0"
    by (simp add: GetRating_def ledger_with_admin_def)
  from HandleChinaCommand_outcomes [where ?r1.0 = ledger_with_admin and ?m1.0 = ?m9
      and ?fs1.0 = empty_disk and ?c1.0 = "''!china <@42> -15''"
      and ?r2.0 = ledger_with_admin and ?m2.0 = ?m7 and ?fs2.0 = empty_disk
      and ?c2.0 = "''!china <@42>''"
      and ?r3.0 = ledger_with_admin and ?m3.0 = ?m7 and ?fs3.0 = empty_disk
      and ?c3.0 = "''!china <@42> ten''"
      and ?r4.0 = ledger_with_admin and ?m4.0 = ?m7 and ?fs4.0 = empty_disk
      and ?c4.0 = "''!china <@42> -15''" and d = "- 15" and err = None and r' = ?r' and fs' = ?fs']
    n a l2 l3 l4 s z
  show ?thesis
    by (simp add: Fields_adjust mention_id_examples)
qed

text \<open>
  Claim C6 as stated promises a confirmation reply whenever the caller is an admin and the
  arguments are well-formed. With \<^verbatim>\<open>os.Create\<close> failing on \<^verbatim>\<open>users.json\<close> the
  admin 7 sends \<^verbatim>\<open>!china <@42> -15\<close>: the rating of 42 goes from 0 to -15 in memory
  and the only reply is that nothing was saved.
\<close>

theorem HandleChinaCommand_save_fails_counterexample:
  "fst (IsAdmin ledger_with_admin (mention_id ''7''))
   \<and> length (Fields ''!china <@42> -15'') = 3
   \<and> Atoi (Fields ''!china <@42> -15'' ! 2) = Some (- 15)
   \<and> HandleChinaCommand ledger_with_admin (empty_disk\<lparr>create_fails := {''users.json''}\<rparr>)
        \<lparr>msg_AuthorID = ''7'', msg_ChannelID = ''chan''\<rparr> ''!china <@42> -15''
      = ([(''chan'', NothingSaved)], UpdateRating ledger_with_admin ''42'' (- 15),
         empty_disk\<lparr>create_fails := {''users.json''}\<rparr>)
   \<and> fst (GetRating (UpdateRating ledger_with_admin ''42'' (- 15)) ''42'') = - 15
   \<and> fst (GetRating ledger_with_admin ''42'') = 0"
  by (simp add: HandleChinaCommand_unfold Fields_adjust Atoi_minus_15 mention_id_examples
      IsAdmin_ledger_with_admin SaveToFile_def UpdateRating_def empty_disk_def GetRating_def
      ledger_with_admin_def IsAdmin_def)

subsection \<open>Starting supervisor tasks\<close>

text \<open>
  Claim C9, as amended. The handler keeps no record of running tasks. A voice state update
  of a user other than the bot with a non-empty channel id adds the user to the ledger if
  needed and starts one more \<^verbatim>\<open>trackUser\<close> goroutine for that user and channel,
  whatever goroutines are running: the number of running tasks of the user goes up by one.
  An update of the bot itself or with an empty channel id changes nothing.
\<close>

theorem TrackVoiceActivity_spawns_each_time:
  "(v_UserID v \<noteq> botID \<and> v_ChannelID v \<noteq> [] \<longrightarrow>
      tasks (TrackVoiceActivity botID b v) = tasks b @ [(v_UserID v, v_ChannelID v)]
      \<and> tasks_of (v_UserID v) (TrackVoiceActivity botID b v) = Suc (tasks_of (v_UserID v) b)
      \<and> ranking (TrackVoiceActivity botID b v) = AddUser (ranking b) (v_UserID v))
   \<and> (v_UserID v' = botID' \<or> v_ChannelID v' = [] \<longrightarrow> TrackVoiceActivity botID' b' v' = b')"
  by (simp add: TrackVoiceActivity_def tasks_of_def)

theorem TrackVoiceActivity_spawns_each_time_witness:
  "v_UserID \<lparr>v_UserID = ''U1'', v_ChannelID = ''C1''\<rparr> \<noteq> ''bot''
   \<and> v_ChannelID \<lparr>v_UserID = ''U1'', v_ChannelID = ''C1''\<rparr> \<noteq> []
   \<and> tasks_of ''U1'' \<lparr>ranking = AddUser empty_ledger ''U1'', tasks = [(''U1'', ''C1'')]\<rparr> = 1
   \<and> tasks_of ''U1'' (TrackVoiceActivity ''bot''
        \<lparr>ranking = AddUser empty_ledger ''U1'', tasks = [(''U1'', ''C1'')]\<rparr>
        \<lparr>v_UserID = ''U1'', v_ChannelID = ''C1''\<rparr>) = 2
   \<and> v_ChannelID \<lparr>v_UserID = ''U1'', v_ChannelID = []\<rparr> = []
   \<and> TrackVoiceActivity ''bot'' \<lparr>ranking = empty_ledger, tasks = []\<rparr>
        \<lparr>v_UserID = ''U1'', v_ChannelID = []\<rparr> = \<lparr>ranking = empty_ledger, tasks = []\<rparr>"
  using TrackVoiceActivity_spawns_each_time [where v = "\<lparr>v_UserID = ''U1'', v_ChannelID = ''C1''\<rparr>"
      and botID = "''bot''"
      and b = "\<lparr>ranking = AddUser empty_ledger ''U1'', tasks = [(''U1'', ''C1'')]\<rparr>"
      and v' = "\<lparr>v_UserID = ''U1'', v_ChannelID = []\<rparr>" and botID' = "''bot''"
      and b' = "\<lparr>ranking = empty_ledger, tasks = []\<rparr>"]
  by (simp add: tasks_of_def)

text \<open>
  Claim C9 as stated allows at most one running task per user. Two voice state updates for
  user U1 in channel C1 (the second, say, a mute toggle) leave two goroutines running for
  U1; when the ticker of each fires with U1 still in C1 both stay, and one interval has
  raised the rating of U1 by 2.
\<close>

theorem duplicate_tasks_counterexample:
  "tasks (foldl (step ''bot'') \<lparr>ranking = empty_ledger, tasks = []\<rparr>
      [VoiceUpdate \<lparr>v_UserID = ''U1'', v_ChannelID = ''C1''\<rparr>,
       VoiceUpdate \<lparr>v_UserID = ''U1'', v_ChannelID = ''C1''\<rparr>])
     = [(''U1'', ''C1''), (''U1'', ''C1'')]
   \<and> \<not> tasks_of ''U1'' (foldl (step ''bot'') \<lparr>ranking = empty_ledger, tasks = []\<rparr>
      [VoiceUpdate \<lparr>v_UserID = ''U1'', v_ChannelID = ''C1''\<rparr>,
       VoiceUpdate \<lparr>v_UserID = ''U1'', v_ChannelID = ''C1''\<rparr>]) \<le> 1
   \<and> tasks_of ''U1'' (foldl (step ''bot'') \<lparr>ranking = empty_ledger, tasks = []\<rparr>
      [VoiceUpdate \<lparr>v_UserID = ''U1'', v_ChannelID = ''C1''\<rparr>,
       VoiceUpdate \<lparr>v_UserID = ''U1'', v_ChannelID = ''C1''\<rparr>,
       Tick 0 (UserGuilds [Guild [\<lparr>vs_UserID = ''U1'', vs_ChannelID = ''C1''\<rparr>]]),
       Tick 1 (UserGuilds [Guild [\<lparr>vs_UserID = ''U1'', vs_ChannelID = ''C1''\<rparr>]])]) = 2
   \<and> fst (GetRating (ranking (foldl (step ''bot'') \<lparr>ranking = empty_ledger, tasks = []\<rparr>
      [VoiceUpdate \<lparr>v_UserID = ''U1'', v_ChannelID = ''C1''\<rparr>,
       VoiceUpdate \<lparr>v_UserID = ''U1'', v_ChannelID = ''C1''\<rparr>,
       Tick 0 (UserGuilds [Guild [\<lparr>vs_UserID = ''U1'', vs_ChannelID = ''C1''\<rparr>]]),
       Tick 1 (UserGuilds [Guild [\<lparr>vs_UserID = ''U1'', vs_ChannelID = ''C1''\<rparr>]])])) ''U1'') = 2"
  by (simp add: step_def TrackVoiceActivity_def tasks_of_def AddUser_def UpdateRating_def
      GetRating_def empty_ledger_def)

end
